theory Spec2Isabelle
  imports Main "HOL-Library.Word"
begin

section \<open>The child-process supervisor of \<^verbatim>\<open>process/process_impl.go\<close>\<close>

text \<open>
  The supervisor talks to the operating system (signals, process creation, status
  files) and to channels. The embedding makes each of these explicit:
  \<^item> a Go \<^verbatim>\<open>error\<close> is its message, and \<^verbatim>\<open>nil\<close> is \<open>None\<close>;
  \<^item> a pointer that may be \<^verbatim>\<open>nil\<close> is an \<open>option\<close>, and using a \<^verbatim>\<open>nil\<close> one is a panic;
  \<^item> what the operating system answers to each call is read from a record of replies;
  \<^item> everything a function does to the outside (signals, log lines, channel sends,
    spawned tasks) is returned as a list of effects, in program order;
  \<^item> every function returns its result (or the panic that ended it), the handle as it
    left it, and its effects.
\<close>

subsection \<open>Values\<close>

type_synonym error = string
type_synonym int32 = "32 word"

text \<open>\<^verbatim>\<open>status.ProcessStatus\<close> is a string type: the loop compares a reading with \<^verbatim>\<open>""\<close>
  and the zero value of \<^verbatim>\<open>last\<close> is the empty string.\<close>

type_synonym ProcessStatus = string

datatype panic = NilPointerDereference | CloseOfClosedChannel | SendOnClosedChannel

datatype 'a result = Panic panic | Return 'a

datatype chan = Open | Closed

datatype signal = SIGTERM | SIGKILL | SIGNULL

datatype LogLevel = DebugLevel | InfoLevel | WarnLevel | ErrorLevel | FatalLevel | PanicLevel

datatype logarg = Str string | Num int | Err error

record ProcAttr =
  Dir :: string
  Env :: "string list"
  Setpgid :: bool

datatype chan_id = CancelChan | NotifyChan

text \<open>The tasks that the program starts with a \<^verbatim>\<open>go\<close> statement. The only one is the
  closure in \<^verbatim>\<open>watch\<close> that calls the launcher again and stores the new process.\<close>

datatype task = RestartTask

datatype effect =
    Logf LogLevel string "logarg list"
  | Logv LogLevel "logarg list"
  | Signalled int signal
  | Released int
  | Waited
  | Getwd
  | StartProcess string "string list" ProcAttr
  | ReadStatus int
  | Send ProcessStatus
  | CloseChan chan_id
  | Go task
  | NewTicker
  | TickerStop

record POptions =
  args :: "string list"
  detach :: bool
  restart :: int32
  notifyChan :: "chan option"

record os_Process =
  Pid :: int

record Process =
  name :: string
  cmd :: string
  options :: "POptions option"
  process :: "os_Process option"
  startTime :: nat
  cancelChan :: "chan option"

text \<open>The replies of the operating system and of the collaborators during one call
  (or one tick): \<open>None\<close> is a \<^verbatim>\<open>nil\<close> error.\<close>

record os =
  getwd :: "error + string"
  environ :: "string list"
  start_process :: "error + os_Process"
  now :: nat
  signal :: "signal \<Rightarrow> error option"
  release :: "error option"
  find_process :: "error option"
  wait :: "error option"
  update_status :: "ProcessStatus \<times> error option"
  get_pid :: int

subsection \<open>Constants\<close>

definition infiniteRestarts :: int32 where
  "infiniteRestarts = - 1"

text \<open>Modelled from the spec: the constants \<^verbatim>\<open>noSuchProcess\<close> and \<^verbatim>\<open>alreadyFinished\<close> are
  declared outside the given sources; the spec describes them as the error substrings
  meaning "no such process" and "process already finished".\<close>

definition noSuchProcess :: string where
  "noSuchProcess = ''no such process''"

definition alreadyFinished :: string where
  "alreadyFinished = ''process already finished''"

text \<open>Modelled from the spec: the package \<^verbatim>\<open>status\<close> is outside the given sources; the spec
  names the states Terminated, Unavailable and Zombie of its enumeration.\<close>

definition Terminated :: ProcessStatus where
  "Terminated = ''terminated''"

definition Unavailable :: ProcessStatus where
  "Unavailable = ''unavailable''"

definition Zombie :: ProcessStatus where
  "Zombie = ''zombie''"

subsection \<open>\<^verbatim>\<open>strings.Contains\<close>\<close>

fun HasPrefix :: "string \<Rightarrow> string \<Rightarrow> bool" where
  "HasPrefix s [] = True"
| "HasPrefix [] (c # cs) = False"
| "HasPrefix (x # xs) (c # cs) = (x = c \<and> HasPrefix xs cs)"

fun Contains :: "string \<Rightarrow> string \<Rightarrow> bool" where
  "Contains [] substr = (substr = [])"
| "Contains (x # xs) substr = (HasPrefix (x # xs) substr \<or> Contains xs substr)"

subsection \<open>Collaborators declared outside the given sources\<close>

text \<open>Modelled from the spec: \<^verbatim>\<open>GetNotification\<close> is declared outside the given sources; the
  spec speaks of the notification sink that is configured, an optional field of the
  options.\<close>

definition GetNotification :: "Process \<Rightarrow> chan option" where
  "GetNotification p = (case options p of None \<Rightarrow> None | Some opts \<Rightarrow> notifyChan opts)"

text \<open>\<^verbatim>\<open>(*os.Process).Signal\<close>: the method reads the fields of its receiver, so a \<^verbatim>\<open>nil\<close>
  receiver panics.\<close>

definition Signal :: "os \<Rightarrow> os_Process option \<Rightarrow> signal \<Rightarrow> error option result \<times> effect list" where
  "Signal os pr sig =
    (case pr of
       None \<Rightarrow> (Panic NilPointerDereference, [])
     | Some q \<Rightarrow> (Return (signal os sig), [Signalled (Pid q) sig]))"

definition Release :: "os \<Rightarrow> os_Process option \<Rightarrow> error option result \<times> effect list" where
  "Release os pr =
    (case pr of
       None \<Rightarrow> (Panic NilPointerDereference, [])
     | Some q \<Rightarrow> (Return (release os), [Released (Pid q)]))"

text \<open>\<^verbatim>\<open>close(ch)\<close> on a channel that is not \<^verbatim>\<open>nil\<close>: closing a closed channel panics.\<close>

definition close :: "chan \<Rightarrow> chan result" where
  "close ch = (case ch of Open \<Rightarrow> Return Closed | Closed \<Rightarrow> Panic CloseOfClosedChannel)"

subsection \<open>Launcher\<close>

definition startProcess ::
  "os \<Rightarrow> Process \<Rightarrow> (os_Process option \<times> error option) result \<times> Process \<times> effect list" where
  "startProcess os p =
    (case getwd os of
       Inl err \<Rightarrow>
         (Return (None, Some (''failed to get rooted path name for: '' @ err)), p, [Getwd])
     | Inr wd \<Rightarrow>
         (let attr = \<lparr>Dir = wd, Env = environ os,
                      Setpgid = (case options p of None \<Rightarrow> False | Some opts \<Rightarrow> detach opts)\<rparr>
          in case options p of
               None \<Rightarrow> (Panic NilPointerDereference, p, [Getwd])
             | Some opts \<Rightarrow>
                 (let pArgs = cmd p # args opts
                  in case start_process os of
                       Inl err \<Rightarrow>
                         (Return (None, Some (''failed to start new process (cmd: '' @ cmd p
                                               @ ''): '' @ err)),
                          p, [Getwd, StartProcess (cmd p) pArgs attr])
                     | Inr pr \<Rightarrow>
                         (Return (Some pr, None), p\<lparr>startTime := now os\<rparr>,
                          [Getwd, StartProcess (cmd p) pArgs attr, ReadStatus (Pid pr)]))))"

subsection \<open>Terminator\<close>

definition stopProcess :: "os \<Rightarrow> Process \<Rightarrow> error option result \<times> Process \<times> effect list" where
  "stopProcess os p =
    (if process p = None
     then (Return (Some ''asked to stop non-existing process instance''), p, [])
     else (case Signal os (process p) SIGTERM of
             (Panic x, t) \<Rightarrow> (Panic x, p, t)
           | (Return (Some err), t) \<Rightarrow>
               (Return (Some (''process termination unsuccessful: '' @ err)), p, t)
           | (Return None, t) \<Rightarrow> (Return None, p\<lparr>startTime := 0\<rparr>, t)))"

definition forceStopProcess :: "os \<Rightarrow> Process \<Rightarrow> error option result \<times> Process \<times> effect list" where
  "forceStopProcess os p =
    (if process p \<noteq> None
     then (Return (Some ''asked to force-stop non-existing process instance''), p, [])
     else (case Signal os (process p) SIGKILL of
             (Panic x, t) \<Rightarrow> (Panic x, p, t)
           | (Return (Some err), t) \<Rightarrow>
               (Return (Some (''process forced termination unsuccessful: '' @ err)), p, t)
           | (Return None, t) \<Rightarrow>
               (case Release os (process p) of
                  (Panic x, t') \<Rightarrow> (Panic x, p, t @ t')
                | (Return (Some err), t') \<Rightarrow>
                    (Return (Some (''resource release failed: '' @ err)), p, t @ t')
                | (Return None, t') \<Rightarrow> (Return None, p\<lparr>startTime := 0\<rparr>, t @ t'))))"

text \<open>Modelled from the spec: \<^verbatim>\<open>Wait\<close> is declared outside the given sources; the spec says
  it blocks until the process has exited and may fail. Its answer is a reply of the
  operating system.\<close>

definition Wait :: "os \<Rightarrow> Process \<Rightarrow> error option \<times> effect list" where
  "Wait os p = (wait os, [Waited])"

text \<open>The end of \<^verbatim>\<open>delete\<close>, reached when no earlier step returned: close the watcher's
  channel when there is one, log, return \<^verbatim>\<open>nil\<close>.\<close>

definition closeWatcher :: "Process \<Rightarrow> error option result \<times> Process \<times> effect list" where
  "closeWatcher p =
    (case cancelChan p of
       None \<Rightarrow> (Return None, p, [Logf DebugLevel ''Process %s deleted'' [Str (name p)]])
     | Some ch \<Rightarrow>
         (case close ch of
            Panic x \<Rightarrow> (Panic x, p, [])
          | Return ch' \<Rightarrow>
              (Return None, p\<lparr>cancelChan := Some ch'\<rparr>,
               [CloseChan CancelChan, Logf DebugLevel ''Process %s deleted'' [Str (name p)]])))"

definition delete :: "os \<Rightarrow> Process \<Rightarrow> error option result \<times> Process \<times> effect list" where
  "delete os p =
    (case stopProcess os p of
       (Panic x, p1, t1) \<Rightarrow> (Panic x, p1, t1)
     | (Return (Some err), p1, t1) \<Rightarrow>
         (let w = [Logf WarnLevel ''cannot stop process %s, trying force stop (err: %v)''
                     [Str (name p1), Err err]]
          in case forceStopProcess os p1 of
               (Panic x, p2, t2) \<Rightarrow> (Panic x, p2, t1 @ w @ t2)
             | (Return (Some err2), p2, t2) \<Rightarrow>
                 (Return (Some (''failed to force-stop process '' @ name p2 @ '': '' @ err2)),
                  p2, t1 @ w @ t2)
             | (Return None, p2, t2) \<Rightarrow>
                 (case closeWatcher p2 of (r, p3, t3) \<Rightarrow> (r, p3, t1 @ w @ t2 @ t3)))
     | (Return None, p1, t1) \<Rightarrow>
         (case Wait os p1 of
            (Some err, t2) \<Rightarrow>
              (Return (Some (''error while waiting on process '' @ name p1
                             @ '' to complete: '' @ err)),
               p1, t1 @ t2)
          | (None, t2) \<Rightarrow>
              (case closeWatcher p1 of (r, p3, t3) \<Rightarrow> (r, p3, t1 @ t2 @ t3))))"

subsection \<open>Liveness prober\<close>

definition isAlive :: "os \<Rightarrow> Process \<Rightarrow> bool \<times> effect list" where
  "isAlive os p =
    (case process p of
       None \<Rightarrow> (False, [])
     | Some pr \<Rightarrow>
         (case find_process os of
            Some err \<Rightarrow> (False, [])
          | None \<Rightarrow>
              (case signal os SIGNULL of
                 Some err \<Rightarrow>
                   (if Contains err noSuchProcess \<or> Contains err alreadyFinished
                    then (False, [Signalled (Pid pr) SIGNULL])
                    else (True, [Signalled (Pid pr) SIGNULL]))
               | None \<Rightarrow> (True, [Signalled (Pid pr) SIGNULL]))))"

subsection \<open>Watchdog\<close>

text \<open>The variables of \<^verbatim>\<open>watch\<close> that live across iterations of its loop.\<close>

record locals =
  last :: ProcessStatus
  numRestarts :: int32

text \<open>The state observed on a tick: the first part of the ticker branch.\<close>

definition observe :: "os \<Rightarrow> Process \<Rightarrow> ProcessStatus \<times> effect list" where
  "observe os p =
    (case isAlive os p of
       (False, t) \<Rightarrow> (Terminated, t)
     | (True, t) \<Rightarrow>
         (case update_status os of
            (State, err) \<Rightarrow>
              (if State = [] then Unavailable else State,
               t @ (case err of None \<Rightarrow> [] | Some e \<Rightarrow> [Logv WarnLevel [Err e]]))))"

text \<open>The send on the notification channel, made when \<^verbatim>\<open>GetNotification\<close> is not \<^verbatim>\<open>nil\<close>.
  A send on a closed channel panics; a send on an open one is taken by the consumer
  (the embedding does not model a consumer that never reads).\<close>

definition notify :: "Process \<Rightarrow> ProcessStatus \<Rightarrow> effect list result" where
  "notify p current =
    (case GetNotification p of
       None \<Rightarrow> Return []
     | Some ch \<Rightarrow> (case ch of Closed \<Rightarrow> Panic SendOnClosedChannel | Open \<Rightarrow> Return [Send current]))"

text \<open>The restart policy applied when the state has changed. The relaunch runs in a
  task of its own (\<open>Go RestartTask\<close>); the counter is decremented right after spawning it.\<close>

definition restartPolicy :: "Process \<Rightarrow> ProcessStatus \<Rightarrow> int32 \<Rightarrow> int32 \<times> effect list" where
  "restartPolicy p current n =
    (if current = Terminated
     then (if 0 <s n \<or> n = infiniteRestarts
           then (n - 1, [Go RestartTask])
           else (n, [Logf DebugLevel ''no more attempts to restart process %s'' [Str (name p)]]))
     else (n, []))"

definition reap :: "os \<Rightarrow> Process \<Rightarrow> ProcessStatus \<Rightarrow> effect list" where
  "reap os p current =
    (if current = Zombie
     then Logf DebugLevel ''Terminating zombie process %d'' [Num (get_pid os)]
          # (case Wait os p of
               (Some err, t) \<Rightarrow>
                 t @ [Logf WarnLevel ''failed to terminate dead process: %s''
                        [Num (get_pid os), Err err]]
             | (None, t) \<Rightarrow> t)
     else [])"

text \<open>One pass through the ticker branch of the loop.\<close>

definition tick :: "os \<Rightarrow> Process \<Rightarrow> locals \<Rightarrow> unit result \<times> Process \<times> locals \<times> effect list" where
  "tick os p w =
    (case observe os p of
       (current, t0) \<Rightarrow>
         (if current \<noteq> last w
          then (case notify p current of
                  Panic x \<Rightarrow> (Panic x, p, w, t0)
                | Return t1 \<Rightarrow>
                    (case restartPolicy p current (numRestarts w) of
                       (n, t2) \<Rightarrow>
                         (Return (), p, \<lparr>last = current, numRestarts = n\<rparr>,
                          t0 @ t1 @ t2 @ reap os p current)))
          else (Return (), p, w\<lparr>last := current\<rparr>, t0)))"

text \<open>The task spawned by the restart policy.\<close>

definition restartTask :: "os \<Rightarrow> Process \<Rightarrow> unit result \<times> Process \<times> effect list" where
  "restartTask os p =
    (case startProcess os p of
       (Panic x, p', t) \<Rightarrow> (Panic x, p', t)
     | (Return (pr, err), p', t) \<Rightarrow>
         (Return (), p'\<lparr>process := pr\<rparr>,
          t @ (case err of
                 None \<Rightarrow> []
               | Some e \<Rightarrow> [Logv ErrorLevel [Str ''attempt to restart process %s failed: %v'',
                                            Str (name p'), Err e]])))"

text \<open>The cancellation branch of the loop.\<close>

definition cancel :: "Process \<Rightarrow> unit result \<times> Process \<times> effect list" where
  "cancel p =
    (case GetNotification p of
       None \<Rightarrow>
         (Return (), p, [TickerStop, Logf DebugLevel ''Process %s watcher stopped'' [Str (name p)]])
     | Some ch \<Rightarrow>
         (case close ch of
            Panic x \<Rightarrow> (Panic x, p, [TickerStop])
          | Return ch' \<Rightarrow>
              (Return (),
               p\<lparr>options := map_option (\<lambda>opts. opts\<lparr>notifyChan := Some ch'\<rparr>) (options p)\<rparr>,
               [TickerStop, CloseChan NotifyChan,
                Logf DebugLevel ''Process %s watcher stopped'' [Str (name p)]])))"

text \<open>Running a task that was started with \<^verbatim>\<open>go\<close>.\<close>

fun run_task :: "task \<Rightarrow> os \<Rightarrow> Process \<Rightarrow> unit result \<times> Process \<times> effect list" where
  "run_task RestartTask os p = restartTask os p"

text \<open>The tasks started by a list of effects, in order.\<close>

fun spawned :: "effect list \<Rightarrow> task list" where
  "spawned [] = []"
| "spawned (Go k # t) = k # spawned t"
| "spawned (e # t) = spawned t"

text \<open>
  What wakes the loop or touches the handle while the loop runs:
  \<^item> \<open>TickerC os\<close>: the ticker fires, and \<open>os\<close> holds the replies during that tick;
  \<^item> \<open>CancelRecv\<close>: the scheduler offers the receive on the cancellation channel, which
    is ready only when that channel is closed;
  \<^item> \<open>TaskRuns os\<close>: the scheduler offers to run a task; the oldest task that the loop
    has started and that has not run yet runs, and nothing happens when there is none;
  \<^item> \<open>SetRestart n\<close>: another task of the program overwrites the configured budget.
  Besides the handle and its own variables, the loop carries the tasks it has started
  that have not run yet (\<open>ks\<close>); a tick adds the tasks it starts to them.
\<close>

datatype event = TickerC os | CancelRecv | TaskRuns os | SetRestart int32

datatype loop_status = Waiting | Returned | Panicked panic

definition setRestart :: "int32 \<Rightarrow> Process \<Rightarrow> Process" where
  "setRestart n p = p\<lparr>options := map_option (\<lambda>opts. opts\<lparr>restart := n\<rparr>) (options p)\<rparr>"

fun loop ::
  "Process \<Rightarrow> locals \<Rightarrow> task list \<Rightarrow> event list
     \<Rightarrow> loop_status \<times> Process \<times> locals \<times> effect list \<times> task list" where
  "loop p w ks [] = (Waiting, p, w, [], ks)"
| "loop p w ks (TickerC os # es) =
    (case tick os p w of
       (Panic x, p', w', t) \<Rightarrow> (Panicked x, p', w', t, ks @ spawned t)
     | (Return u, p', w', t) \<Rightarrow>
         (case loop p' w' (ks @ spawned t) es of
            (s, p'', w'', t', ks') \<Rightarrow> (s, p'', w'', t @ t', ks')))"
| "loop p w ks (CancelRecv # es) =
    (if cancelChan p = Some Closed
     then (case cancel p of
             (Panic x, p', t) \<Rightarrow> (Panicked x, p', w, t, ks)
           | (Return u, p', t) \<Rightarrow> (Returned, p', w, t, ks))
     else loop p w ks es)"
| "loop p w ks (TaskRuns os # es) =
    (case ks of
       [] \<Rightarrow> loop p w ks es
     | k # ks' \<Rightarrow>
         (case run_task k os p of
            (Panic x, p', t) \<Rightarrow> (Panicked x, p', w, t, ks')
          | (Return u, p', t) \<Rightarrow>
              (case loop p' w ks' es of
                 (s, p'', w'', t', ks'') \<Rightarrow> (s, p'', w'', t @ t', ks''))))"
| "loop p w ks (SetRestart n # es) = loop (setRestart n p) w ks es"

definition watch ::
  "Process \<Rightarrow> event list \<Rightarrow> loop_status \<times> Process \<times> locals \<times> effect list \<times> task list" where
  "watch p es =
    (let numRestarts0 = (case options p of None \<Rightarrow> 0 | Some opts \<Rightarrow> restart opts)
     in case loop p \<lparr>last = [], numRestarts = numRestarts0\<rparr> [] es of
          (s, p', w', t, ks) \<Rightarrow>
            (s, p', w',
             [Logf DebugLevel ''Process %s watcher started'' [Str (name p)], NewTicker] @ t,
             ks))"

subsection \<open>A concrete handle and concrete replies\<close>

text \<open>A handle for a running child with pid 42, a budget of two restarts, a notification
  sink and an open cancellation channel; and replies of an operating system where every
  call succeeds and the status file reads "running".\<close>

definition handle0 :: Process where
  "handle0 = \<lparr>name = ''p1'', cmd = ''/bin/sleep'',
              options = Some \<lparr>args = [''60''], detach = False, restart = 2,
                              notifyChan = Some Open\<rparr>,
              process = Some \<lparr>Pid = 42\<rparr>, startTime = 5, cancelChan = Some Open\<rparr>"

definition os_ok :: os where
  "os_ok = \<lparr>getwd = Inr ''/srv'', environ = [], start_process = Inr \<lparr>Pid = 43\<rparr>, now = 7,
            signal = (\<lambda>s. None), release = None, find_process = None, wait = None,
            update_status = (''running'', None), get_pid = 42\<rparr>"

text \<open>Replies where every signal fails because the child has exited already.\<close>

definition os_gone :: os where
  "os_gone = os_ok\<lparr>signal := (\<lambda>s. Some ''os: process already finished'')\<rparr>"

text \<open>Replies where every signal is refused because the child belongs to another user.\<close>

definition os_noperm :: os where
  "os_noperm = os_ok\<lparr>signal := (\<lambda>s. Some ''operation not permitted'')\<rparr>"

text \<open>Replies where waiting for the child fails.\<close>

definition os_nowait :: os where
  "os_nowait = os_ok\<lparr>wait := Some ''wait: no child processes''\<rparr>"


text \<open>The loop variables right after \<^verbatim>\<open>watch\<close> has started on \<open>handle0\<close>.\<close>

definition w0 :: locals where
  "w0 = \<lparr>last = [], numRestarts = 2\<rparr>"


definition handle_forever :: Process where
  "handle_forever = handle0\<lparr>options := Some \<lparr>args = [''60''], detach = False, restart = - 1,
                              notifyChan = Some Open\<rparr>\<rparr>"

text \<open>Replies where the child is alive and the status source fails with an empty reading.\<close>

definition os_nostatus :: os where
  "os_nostatus = os_ok\<lparr>update_status := ([], Some ''open /proc/42/status: permission denied'')\<rparr>"

subsection \<open>Reading the effects\<close>

text \<open>The values sent to the notification sink, in order.\<close>

fun notifications :: "effect list \<Rightarrow> ProcessStatus list" where
  "notifications [] = []"
| "notifications (Send v # t) = v # notifications t"
| "notifications (e # t) = notifications t"

text \<open>The number of times the launcher was entered: \<^verbatim>\<open>startProcess\<close> begins with the call
  of \<^verbatim>\<open>os.Getwd\<close>, and nothing else calls it.\<close>

definition launches :: "effect list \<Rightarrow> nat" where
  "launches t = count_list t Getwd"

subsection \<open>Reading the events\<close>

text \<open>The events of a run other than the overwriting of the configured budget.\<close>

fun is_SetRestart :: "event \<Rightarrow> bool" where
  "is_SetRestart (SetRestart n) = True"
| "is_SetRestart e = False"

definition other_events :: "event list \<Rightarrow> event list" where
  "other_events es = filter (\<lambda>e. \<not> is_SetRestart e) es"

section \<open>Substrings\<close>

lemma HasPrefix_iff: "HasPrefix s sub \<longleftrightarrow> (\<exists>b. s = sub @ b)"
  by (induction s sub rule: HasPrefix.induct) auto

lemma Contains_iff: "Contains s sub \<longleftrightarrow> (\<exists>a b. s = a @ sub @ b)"
proof (induction s)
  case Nil
  then show ?case by auto
next
  case (Cons x xs)
  show ?case
  proof
    assume "Contains (x # xs) sub"
    then consider "HasPrefix (x # xs) sub" | "Contains xs sub" by auto
    then show "\<exists>a b. x # xs = a @ sub @ b"
    proof cases
      case 1
      then obtain b where "x # xs = sub @ b" by (auto simp: HasPrefix_iff)
      then have "x # xs = [] @ sub @ b" by simp
      then show ?thesis by blast
    next
      case 2
      then obtain a b where "xs = a @ sub @ b" using Cons.IH by auto
      then have "x # xs = (x # a) @ sub @ b" by simp
      then show ?thesis by blast
    qed
  next
    assume "\<exists>a b. x # xs = a @ sub @ b"
    then obtain a b where ab: "x # xs = a @ sub @ b" by blast
    show "Contains (x # xs) sub"
    proof (cases a)
      case Nil
      with ab have "HasPrefix (x # xs) sub" by (auto simp: HasPrefix_iff)
      then show ?thesis by simp
    next
      case (Cons y ys)
      with ab have "xs = ys @ sub @ b" by simp
      then have "Contains xs sub" using Cons.IH by blast
      then show ?thesis by simp
    qed
  qed
qed

section \<open>Terminator: the forced stop\<close>

lemma forceStopProcess_cases:
  "forceStopProcess os p =
     (if process p \<noteq> None
      then (Return (Some ''asked to force-stop non-existing process instance''), p, [])
      else (Panic NilPointerDereference, p, []))"
  by (simp add: forceStopProcess_def Signal_def)

text \<open>
  C1. The claim: the forced stop fails with the no-process error exactly when the handle
  holds no OS process, and with a live process it sends the kill signal, releases the
  process and clears the start time, never dereferencing a \<^verbatim>\<open>nil\<close> process.
  The source tests \<^verbatim>\<open>p.process != nil\<close> where its error message and its sibling
  \<^verbatim>\<open>stopProcess\<close> say \<^verbatim>\<open>== nil\<close>. Evaluated on the handle without a process, the forced stop
  panics on the \<^verbatim>\<open>nil\<close> process; evaluated on the handle of the running child 42, it
  returns the no-process error, sends no signal and leaves the start time as it was.
\<close>

theorem forceStopProcess_guard_inverted:
  "forceStopProcess os_ok (handle0\<lparr>process := None\<rparr>)
     = (Panic NilPointerDereference, handle0\<lparr>process := None\<rparr>, [])
   \<and> forceStopProcess os_ok handle0
     = (Return (Some ''asked to force-stop non-existing process instance''), handle0, [])
   \<and> startTime handle0 = 5"
  by (simp add: forceStopProcess_def Signal_def handle0_def)

section \<open>Liveness prober\<close>

lemma isAlive_cases:
  "fst (isAlive os p) \<longleftrightarrow>
     process p \<noteq> None \<and> find_process os = None \<and>
     (case signal os SIGNULL of
        None \<Rightarrow> True
      | Some e \<Rightarrow> \<not> Contains e noSuchProcess \<and> \<not> Contains e alreadyFinished)"
  by (simp add: isAlive_def split: option.splits)

text \<open>
  C9. \<^verbatim>\<open>os.FindProcess\<close> always succeeds on Unix, the only systems this file is built
  for (it sets \<^verbatim>\<open>Setpgid\<close>), so the probe signal is sent whenever the handle holds a
  process. Then \<^verbatim>\<open>isAlive\<close> returns false when the handle holds no OS process or when the
  error of the probe signal contains the "no such process" or the "process already
  finished" text, and true for every other outcome of the probe signal: no error, or any
  other error, a permission error included.
\<close>

theorem isAlive_probe:
  assumes "find_process os = None"
  shows "fst (isAlive os p) \<longleftrightarrow>
     process p \<noteq> None \<and>
     (case signal os SIGNULL of
        None \<Rightarrow> True
      | Some e \<Rightarrow> \<not> Contains e noSuchProcess \<and> \<not> Contains e alreadyFinished)"
  using assms by (simp add: isAlive_def split: option.splits)

text \<open>A child owned by another user is alive, and so is one that takes the signal; a
  child that has finished, or a handle without a process, is not.\<close>

theorem isAlive_probe_witness:
  "find_process os_noperm = None \<and> find_process os_gone = None \<and> find_process os_ok = None
   \<and> signal os_noperm SIGNULL = Some ''operation not permitted''
   \<and> fst (isAlive os_noperm handle0)
   \<and> fst (isAlive os_ok handle0)
   \<and> \<not> fst (isAlive os_gone handle0)
   \<and> \<not> fst (isAlive os_noperm (handle0\<lparr>process := None\<rparr>))"
proof -
  have a: "find_process os_noperm = None" "find_process os_gone = None"
    "find_process os_ok = None"
    by (simp_all add: os_noperm_def os_gone_def os_ok_def)
  show ?thesis
    using isAlive_probe [OF a(1), of handle0] isAlive_probe [OF a(2), of handle0]
      isAlive_probe [OF a(3), of handle0]
      isAlive_probe [OF a(1), of "handle0\<lparr>process := None\<rparr>"] a
    by (simp add: os_noperm_def os_gone_def os_ok_def handle0_def noSuchProcess_def
        alreadyFinished_def)
qed

section \<open>Terminator: delete\<close>

lemma stopProcess_cases:
  "stopProcess os p =
     (case process p of
        None \<Rightarrow> (Return (Some ''asked to stop non-existing process instance''), p, [])
      | Some q \<Rightarrow>
          (case signal os SIGTERM of
             Some err \<Rightarrow> (Return (Some (''process termination unsuccessful: '' @ err)), p,
                          [Signalled (Pid q) SIGTERM])
           | None \<Rightarrow> (Return None, p\<lparr>startTime := 0\<rparr>, [Signalled (Pid q) SIGTERM])))"
  by (simp add: stopProcess_def Signal_def split: option.splits)

lemmas delete_unfold =
  delete_def stopProcess_cases forceStopProcess_cases closeWatcher_def close_def Wait_def

text \<open>
  C6 (as amended). When the graceful stop fails and the forced stop fails too,
  \<^verbatim>\<open>delete\<close> returns one error that names the process and carries the message of the
  forced-stop failure only; the graceful-stop failure goes to the log as a warning and
  is not part of the returned error. The handle is left as it was.
\<close>

theorem delete_both_fail:
  assumes "fst (stopProcess os p) = Return (Some e1)"
    and "fst (forceStopProcess os p) = Return (Some e2)"
  shows "delete os p =
           (Return (Some (''failed to force-stop process '' @ name p @ '': '' @ e2)), p,
            snd (snd (stopProcess os p))
            @ [Logf WarnLevel ''cannot stop process %s, trying force stop (err: %v)''
                 [Str (name p), Err e1]])"
  using assms
  by (auto simp: delete_def stopProcess_cases forceStopProcess_cases
      split: option.splits if_splits)

theorem delete_both_fail_witness:
  "fst (stopProcess os_noperm handle0)
     = Return (Some ''process termination unsuccessful: operation not permitted'')
   \<and> fst (forceStopProcess os_noperm handle0)
     = Return (Some ''asked to force-stop non-existing process instance'')
   \<and> delete os_noperm handle0
     = (Return (Some ''failed to force-stop process p1: asked to force-stop non-existing process instance''),
        handle0,
        [Signalled 42 SIGTERM,
         Logf WarnLevel ''cannot stop process %s, trying force stop (err: %v)''
           [Str ''p1'', Err ''process termination unsuccessful: operation not permitted'']])"
proof -
  have a: "fst (stopProcess os_noperm handle0)
             = Return (Some ''process termination unsuccessful: operation not permitted'')"
    by (simp add: stopProcess_cases handle0_def os_ok_def os_noperm_def)
  have b: "fst (forceStopProcess os_noperm handle0)
             = Return (Some ''asked to force-stop non-existing process instance'')"
    by (simp add: forceStopProcess_cases handle0_def os_ok_def os_noperm_def)
  have c: "snd (snd (stopProcess os_noperm handle0)) = [Signalled 42 SIGTERM]"
    by (simp add: stopProcess_cases handle0_def os_ok_def os_noperm_def)
  have d: "name handle0 = ''p1''"
    by (simp add: handle0_def)
  show ?thesis
    using delete_both_fail [OF a b] a b c d by simp
qed

text \<open>The claim as written says the returned error reports the graceful-stop failure
  too. With signals refused, the returned message holds neither the graceful-stop error
  nor the reply of the operating system that caused it.\<close>

theorem delete_combined_error_counterexample:
  "fst (stopProcess os_noperm handle0)
     = Return (Some ''process termination unsuccessful: operation not permitted'')
   \<and> fst (delete os_noperm handle0)
     = Return (Some ''failed to force-stop process p1: asked to force-stop non-existing process instance'')
   \<and> \<not> Contains ''failed to force-stop process p1: asked to force-stop non-existing process instance''
          ''process termination unsuccessful''
   \<and> \<not> Contains ''failed to force-stop process p1: asked to force-stop non-existing process instance''
          ''operation not permitted''"
  by (simp add: delete_unfold handle0_def os_ok_def os_noperm_def)

lemma loop_cancel:
  "cancelChan p = Some Closed \<Longrightarrow>
   fst (loop p w ks (CancelRecv # es))
     = (if GetNotification p = Some Closed then Panicked CloseOfClosedChannel else Returned)"
  by (auto simp: cancel_def close_def split: option.splits chan.splits)

lemma delete_GetNotification: "GetNotification (fst (snd (delete os p))) = GetNotification p"
  by (simp add: delete_unfold GetNotification_def split: option.splits chan.splits)

text \<open>
  C4 (as amended). \<^verbatim>\<open>delete\<close> closes the cancellation channel on the path where it
  returns without an error, and only there: when it returns an error (the forced
  fallback failed, or waiting for the exit failed) it has returned before the close and
  the channel is as it was. So the channel of the returned handle is the closed one
  exactly when \<^verbatim>\<open>delete\<close> returned \<^verbatim>\<open>nil\<close>, and a close appears among the effects exactly then
  (and when there is a channel to close). After such a close the watchdog loop ends as
  soon as it takes the receive on the cancellation channel.
\<close>

theorem delete_closes_on_success:
  "cancelChan (fst (snd (delete os p))) =
     (if fst (delete os p) = Return None then map_option (\<lambda>c. Closed) (cancelChan p)
      else cancelChan p)
   \<and> (CloseChan CancelChan \<in> set (snd (snd (delete os p)))
        \<longleftrightarrow> fst (delete os p) = Return None \<and> cancelChan p \<noteq> None)
   \<and> (fst (delete os p) = Return None \<and> cancelChan p \<noteq> None
        \<longrightarrow> fst (loop (fst (snd (delete os p))) w ks (CancelRecv # es))
            = (if GetNotification p = Some Closed then Panicked CloseOfClosedChannel
               else Returned))"
proof -
  have 1: "cancelChan (fst (snd (delete os p))) =
     (if fst (delete os p) = Return None then map_option (\<lambda>c. Closed) (cancelChan p)
      else cancelChan p)"
    by (simp add: delete_unfold split: option.splits chan.splits)
  have 2: "CloseChan CancelChan \<in> set (snd (snd (delete os p)))
        \<longleftrightarrow> fst (delete os p) = Return None \<and> cancelChan p \<noteq> None"
    by (simp add: delete_unfold split: option.splits chan.splits)
  have 3: "fst (loop (fst (snd (delete os p))) w ks (CancelRecv # es))
            = (if GetNotification p = Some Closed then Panicked CloseOfClosedChannel
               else Returned)"
    if "fst (delete os p) = Return None" "cancelChan p \<noteq> None"
  proof -
    have "cancelChan (fst (snd (delete os p))) = Some Closed"
      using 1 that by auto
    then show ?thesis
      using loop_cancel [of "fst (snd (delete os p))" w ks es] delete_GetNotification [of os p]
      by simp
  qed
  show ?thesis using 1 2 3 by blast
qed

text \<open>On the running child with every reply successful, \<^verbatim>\<open>delete\<close> returns \<^verbatim>\<open>nil\<close>, the
  channel is closed, and the loop returns on its next receive.\<close>

theorem delete_closes_on_success_witness:
  "fst (delete os_ok handle0) = Return None
   \<and> cancelChan handle0 = Some Open
   \<and> cancelChan (fst (snd (delete os_ok handle0))) = Some Closed
   \<and> CloseChan CancelChan \<in> set (snd (snd (delete os_ok handle0)))
   \<and> fst (loop (fst (snd (delete os_ok handle0))) w0 [] [CancelRecv]) = Returned"
proof -
  have a: "fst (delete os_ok handle0) = Return None"
    by (simp add: delete_unfold handle0_def os_ok_def)
  have b: "cancelChan handle0 = Some Open" "GetNotification handle0 = Some Open"
    by (simp_all add: handle0_def GetNotification_def)
  show ?thesis
    using delete_closes_on_success [of os_ok handle0 w0 "[]" "[]"] a b
    by (simp del: loop.simps)
qed

text \<open>The claim as written says the channel is closed in all outcomes. When the child has
  gone and both stops fail, and when the wait after a graceful stop fails, \<^verbatim>\<open>delete\<close>
  returns its error and the channel is still open.\<close>

theorem delete_error_keeps_cancelChan_counterexample:
  "cancelChan handle0 = Some Open
   \<and> fst (delete os_gone handle0)
     = Return (Some ''failed to force-stop process p1: asked to force-stop non-existing process instance'')
   \<and> cancelChan (fst (snd (delete os_gone handle0))) = Some Open
   \<and> fst (delete os_nowait handle0)
     = Return (Some ''error while waiting on process p1 to complete: wait: no child processes'')
   \<and> cancelChan (fst (snd (delete os_nowait handle0))) = Some Open"
  by (simp add: delete_unfold handle0_def os_ok_def os_gone_def os_nowait_def)





section \<open>Watchdog: one tick\<close>

lemma notifications_append [simp]: "notifications (a @ b) = notifications a @ notifications b"
  by (induction a rule: notifications.induct) simp_all

lemma notifications_isAlive: "isAlive os p = (b, t) \<Longrightarrow> notifications t = []"
  by (auto simp: isAlive_def split: option.splits if_splits)

lemma notifications_observe: "observe os p = (c, t) \<Longrightarrow> notifications t = []"
  by (auto simp: observe_def split: prod.splits bool.splits option.splits
      dest: notifications_isAlive)

lemma notifications_reap [simp]: "notifications (reap os p c) = []"
  by (simp add: reap_def Wait_def split: option.splits)

lemma notifications_restartPolicy: "restartPolicy p c n = (n', t) \<Longrightarrow> notifications t = []"
  by (auto simp: restartPolicy_def split: if_splits)

lemma tick_proc: "fst (snd (tick os p w)) = p"
  by (simp add: tick_def split: prod.splits result.splits)

lemma tick_notifications:
  assumes "GetNotification p = Some Open"
  shows "notifications (snd (snd (snd (tick os p w)))) =
      (if fst (observe os p) \<noteq> last w then [fst (observe os p)] else [])"
proof -
  obtain c t0 where o: "observe os p = (c, t0)" by (cases "observe os p")
  obtain n t2 where r: "restartPolicy p c (numRestarts w) = (n, t2)"
    by (cases "restartPolicy p c (numRestarts w)")
  have "notifications t0 = []" "notifications t2 = []"
    using o r notifications_observe notifications_restartPolicy by blast+
  then show ?thesis
    using assms o r by (simp add: tick_def notify_def)
qed

lemma tick_last:
  assumes "GetNotification p \<noteq> Some Closed"
  shows "last (fst (snd (snd (tick os p w)))) = fst (observe os p)"
  using assms
  by (auto simp: tick_def notify_def split: prod.splits result.splits option.splits chan.splits)

lemmas tick_unfold =
  tick_def observe_def isAlive_def notify_def GetNotification_def restartPolicy_def reap_def
  Wait_def noSuchProcess_def alreadyFinished_def Terminated_def Unavailable_def Zombie_def
  infiniteRestarts_def word_sless_alt word_sle_eq

text \<open>
  C7. With a notification sink configured (and open), a tick sends to the sink exactly
  when the state it observes differs from the one remembered from the tick before, and
  what it sends is the observed state; the remembered state becomes the observed one on
  every tick, changed or not; so a following tick that observes the same state sends
  nothing.
\<close>

theorem notify_iff_changed:
  assumes "GetNotification p = Some Open"
    and "tick os p w = (r, p', w', t)"
  shows "notifications t = (if fst (observe os p) \<noteq> last w then [fst (observe os p)] else [])
       \<and> last w' = fst (observe os p)
       \<and> (\<forall>os2. fst (observe os2 p') = fst (observe os p)
              \<longrightarrow> notifications (snd (snd (snd (tick os2 p' w')))) = [])"
proof -
  have p': "p' = p" using tick_proc [of os p w] assms(2) by simp
  have l: "last w' = fst (observe os p)"
    using tick_last [of p os w] assms by simp
  have n: "notifications t = (if fst (observe os p) \<noteq> last w then [fst (observe os p)] else [])"
    using tick_notifications [OF assms(1), of os w] assms(2) by simp
  have "notifications (snd (snd (snd (tick os2 p' w')))) = []"
    if "fst (observe os2 p') = fst (observe os p)" for os2
    using tick_notifications [OF assms(1), of os2 w'] that l p' by simp
  then show ?thesis using l n by blast
qed

text \<open>The first tick after the child of \<open>handle0\<close> has died notifies "terminated"; the next
  tick, which sees it dead again, notifies nothing.\<close>

theorem notify_iff_changed_witness:
  "GetNotification handle0 = Some Open
   \<and> tick os_gone handle0 w0
      = (Return (), handle0, \<lparr>last = Terminated, numRestarts = 1\<rparr>,
         [Signalled 42 SIGNULL, Send Terminated, Go RestartTask])
   \<and> fst (observe os_gone handle0) = Terminated \<and> last w0 \<noteq> Terminated
   \<and> notifications [Signalled 42 SIGNULL, Send Terminated, Go RestartTask] = [Terminated]
   \<and> notifications (snd (snd (snd (tick os_gone handle0 \<lparr>last = Terminated, numRestarts = 1\<rparr>)))) = []"
proof -
  have a: "GetNotification handle0 = Some Open"
    by (simp add: GetNotification_def handle0_def)
  have b: "tick os_gone handle0 w0
      = (Return (), handle0, \<lparr>last = Terminated, numRestarts = 1\<rparr>,
         [Signalled 42 SIGNULL, Send Terminated, Go RestartTask])"
    by (simp add: tick_unfold handle0_def os_gone_def os_ok_def w0_def)
  have c: "fst (observe os_gone handle0) = Terminated"
    by (simp add: observe_def isAlive_def handle0_def os_gone_def os_ok_def noSuchProcess_def
        alreadyFinished_def)
  have d: "last w0 \<noteq> Terminated"
    by (simp add: w0_def Terminated_def)
  show ?thesis
    using notify_iff_changed [OF a b] a b c d by simp
qed

text \<open>
  C8. The state observed on a tick is Terminated when the liveness probe says not alive;
  otherwise the status source is queried, an error of that query is logged as a warning
  and changes nothing else, and the observed state is Unavailable when the state of the
  reading is empty and the state of the reading in all other cases. That observed state
  is what the tick remembers (unless the tick panics sending to a closed sink).
\<close>

theorem observed_state:
  "fst (observe os p) =
     (if \<not> fst (isAlive os p) then Terminated
      else if fst (update_status os) = [] then Unavailable
      else fst (update_status os))
   \<and> (Logv WarnLevel [Err e] \<in> set (snd (observe os p))
        \<longleftrightarrow> fst (isAlive os p) \<and> snd (update_status os) = Some e)
   \<and> (last (fst (snd (snd (tick os p w)))) = fst (observe os p)
        \<or> fst (tick os p w) = Panic SendOnClosedChannel)"
proof -
  obtain b t where a: "isAlive os p = (b, t)" by (cases "isAlive os p")
  have t: "Logv WarnLevel [Err e] \<notin> set t"
    using a by (auto simp: isAlive_def split: option.splits if_splits)
  have 1: "fst (observe os p) =
     (if \<not> fst (isAlive os p) then Terminated
      else if fst (update_status os) = [] then Unavailable
      else fst (update_status os))"
    using a by (simp add: observe_def split: prod.splits bool.splits)
  have 2: "Logv WarnLevel [Err e] \<in> set (snd (observe os p))
        \<longleftrightarrow> fst (isAlive os p) \<and> snd (update_status os) = Some e"
    using a t by (auto simp: observe_def split: prod.splits bool.splits option.splits)
  have 3: "last (fst (snd (snd (tick os p w)))) = fst (observe os p)
        \<or> fst (tick os p w) = Panic SendOnClosedChannel"
    by (auto simp: tick_def notify_def split: prod.splits result.splits option.splits
        chan.splits)
  show ?thesis using 1 2 3 by blast
qed

text \<open>A status source that fails with an empty reading gives Unavailable and one warning;
  a child that has gone gives Terminated without asking the status source.\<close>

theorem observed_state_witness:
  "fst (observe os_nostatus handle0) = Unavailable
   \<and> Logv WarnLevel [Err ''open /proc/42/status: permission denied'']
        \<in> set (snd (observe os_nostatus handle0))
   \<and> fst (observe os_gone handle0) = Terminated
   \<and> fst (observe os_ok handle0) = ''running''
   \<and> last (fst (snd (snd (tick os_nostatus handle0 w0)))) = Unavailable"
proof -
  have a: "fst (isAlive os_nostatus handle0)" "\<not> fst (isAlive os_gone handle0)"
    "fst (isAlive os_ok handle0)"
    by (simp_all add: isAlive_def os_nostatus_def os_gone_def os_ok_def handle0_def
        noSuchProcess_def alreadyFinished_def)
  have b: "update_status os_nostatus = ([], Some ''open /proc/42/status: permission denied'')"
    "update_status os_ok = (''running'', None)"
    by (simp_all add: os_nostatus_def os_ok_def)
  have c: "fst (tick os_nostatus handle0 w0) \<noteq> Panic SendOnClosedChannel"
    by (simp add: tick_unfold os_nostatus_def os_ok_def handle0_def w0_def)
  show ?thesis
    using observed_state [of os_nostatus handle0 "''open /proc/42/status: permission denied''" w0]
      observed_state [of os_gone handle0 "''x''" w0]
      observed_state [of os_ok handle0 "''x''" w0] a b c
    by simp
qed

section \<open>Watchdog: the restart counter\<close>


lemma spawned_append [simp]: "spawned (a @ b) = spawned a @ spawned b"
  by (induction a rule: spawned.induct) simp_all

lemma launches_append [simp]: "launches (a @ b) = launches a + launches b"
  by (simp add: launches_def)

lemma quiet_isAlive: "isAlive os p = (b, t) \<Longrightarrow> spawned t = [] \<and> launches t = 0"
  by (auto simp: isAlive_def launches_def split: option.splits if_splits)

lemma quiet_observe: "observe os p = (c, t) \<Longrightarrow> spawned t = [] \<and> launches t = 0"
  by (auto simp: observe_def launches_def split: prod.splits bool.splits option.splits
      dest: quiet_isAlive)

lemma quiet_reap [simp]: "spawned (reap os p c) = []" "launches (reap os p c) = 0"
  by (simp_all add: reap_def Wait_def launches_def split: option.splits)



text \<open>What a tick does to the counter, the started tasks and the launcher.\<close>

lemma tick_spawned:
  "spawned (snd (snd (snd (tick os p w)))) =
     (if fst (observe os p) \<noteq> last w \<and> notify p (fst (observe os p)) \<noteq> Panic SendOnClosedChannel
      then spawned (snd (restartPolicy p (fst (observe os p)) (numRestarts w)))
      else [])"
proof -
  obtain c t0 where o: "observe os p = (c, t0)" by (cases "observe os p")
  have q: "spawned t0 = []" using quiet_observe [OF o] by simp
  have n: "spawned t1 = []" if "notify p c = Return t1" for t1
    using that by (auto simp: notify_def split: option.splits chan.splits)
  have n': "x = SendOnClosedChannel" if "notify p c = Panic x" for x
    using that by (auto simp: notify_def split: option.splits chan.splits)
  show ?thesis
    using o q n n' by (auto simp: tick_def split: result.splits prod.splits)
qed

















text \<open>
  C2. The claim: with the budget \<open>-1\<close>, which stands for restarting for ever, every change
  to Terminated spawns a relaunch and the counter stays as it is. The source decrements
  the counter after every spawn, the infinite one too. Evaluated on a handle with the
  budget \<open>-1\<close>: the child dies, one relaunch is spawned and the counter becomes \<open>-2\<close>; the
  relaunched child runs, then dies; the counter is neither positive nor \<open>-1\<close>, and the loop
  logs that no attempts are left and spawns nothing.
\<close>

theorem infinite_budget_restarts_once:
  "map_option restart (options handle_forever) = Some infiniteRestarts
   \<and> watch handle_forever [TickerC os_gone, TaskRuns os_ok, TickerC os_ok, TickerC os_gone]
     = (Waiting, handle_forever\<lparr>process := Some \<lparr>Pid = 43\<rparr>, startTime := 7\<rparr>,
        \<lparr>last = Terminated, numRestarts = - 2\<rparr>,
        [Logf DebugLevel ''Process %s watcher started'' [Str ''p1''], NewTicker,
         Signalled 42 SIGNULL, Send Terminated, Go RestartTask,
         Getwd,
         StartProcess ''/bin/sleep'' [''/bin/sleep'', ''60'']
           \<lparr>Dir = ''/srv'', Env = [], Setpgid = False\<rparr>,
         ReadStatus 43,
         Signalled 43 SIGNULL, Send ''running'',
         Signalled 43 SIGNULL, Send Terminated,
         Logf DebugLevel ''no more attempts to restart process %s'' [Str ''p1'']],
        [])"
  by (simp add: watch_def tick_unfold restartTask_def startProcess_def handle_forever_def
      handle0_def os_gone_def os_ok_def)


section \<open>Watchdog: the configured budget is read once\<close>

lemma setRestart_twice: "setRestart m (setRestart n p) = setRestart m p"
  by (cases "options p") (simp_all add: setRestart_def)

lemma setRestart_self: "\<exists>n. setRestart n p = p"
proof (cases "options p")
  case None
  then show ?thesis by (simp add: setRestart_def)
next
  case (Some opts)
  then have "setRestart (restart opts) p = p" by (simp add: setRestart_def)
  then show ?thesis by blast
qed

lemma GetNotification_setRestart [simp]: "GetNotification (setRestart n p) = GetNotification p"
  by (cases "options p") (simp_all add: setRestart_def GetNotification_def)

lemma isAlive_setRestart [simp]: "isAlive os (setRestart n p) = isAlive os p"
  by (simp add: isAlive_def setRestart_def)

lemma observe_setRestart [simp]: "observe os (setRestart n p) = observe os p"
  by (simp add: observe_def)

lemma restartPolicy_setRestart [simp]:
  "restartPolicy (setRestart n p) c k = restartPolicy p c k"
  by (simp add: restartPolicy_def setRestart_def)

lemma reap_setRestart [simp]: "reap os (setRestart n p) c = reap os p c"
  by (simp add: reap_def Wait_def)

lemma tick_setRestart:
  "tick os (setRestart n p) w = (case tick os p w of (r, p', w', t) \<Rightarrow> (r, setRestart n p', w', t))"
  by (simp add: tick_def notify_def split: prod.splits result.splits option.splits chan.splits)

lemma startProcess_setRestart:
  "startProcess os (setRestart n p) =
     (case startProcess os p of (r, p', t) \<Rightarrow> (r, setRestart n p', t))"
  by (cases "options p")
     (simp_all add: startProcess_def setRestart_def Let_def split: sum.splits)

lemma setRestart_fields [simp]:
  "name (setRestart n p) = name p"
  "(setRestart n p)\<lparr>process := x\<rparr> = setRestart n (p\<lparr>process := x\<rparr>)"
  by (simp_all add: setRestart_def)

lemma restartTask_setRestart:
  "restartTask os (setRestart n p) =
     (case restartTask os p of (r, p', t) \<Rightarrow> (r, setRestart n p', t))"
proof -
  obtain r p' t where sp: "startProcess os p = (r, p', t)" by (cases "startProcess os p") auto
  show ?thesis
    using sp by (cases r) (auto simp: restartTask_def startProcess_setRestart split: option.splits)
qed

lemma cancel_setRestart:
  "cancel (setRestart n p) = (case cancel p of (r, p', t) \<Rightarrow> (r, setRestart n p', t))"
  by (cases "options p")
     (auto simp: cancel_def close_def GetNotification_def setRestart_def
        split: option.splits chan.splits)

lemma cancelChan_setRestart [simp]: "cancelChan (setRestart n p) = cancelChan p"
  by (simp add: setRestart_def)

lemma run_task_setRestart:
  "run_task k os (setRestart n p) =
     (case run_task k os p of (r, p', t) \<Rightarrow> (r, setRestart n p', t))"
  by (cases k) (simp add: restartTask_setRestart)

lemma loop_setRestart:
  "\<exists>m. loop (setRestart n p) w ks es =
        (case loop p w ks (other_events es) of (s, p', w', t) \<Rightarrow> (s, setRestart m p', w', t))"
proof (induction es arbitrary: n p w ks)
  case Nil
  then show ?case by (auto simp: other_events_def)
next
  case (Cons e es)
  show ?case
  proof (cases e)
    case (TickerC os)
    obtain r p' w' t where tk: "tick os p w = (r, p', w', t)" by (cases "tick os p w") auto
    obtain m where "loop (setRestart n p') w' (ks @ spawned t) es =
        (case loop p' w' (ks @ spawned t) (other_events es) of
           (s, p2, w2, t2) \<Rightarrow> (s, setRestart m p2, w2, t2))"
      using Cons.IH by blast
    then show ?thesis
      using TickerC tk
      by (cases r) (auto simp: other_events_def tick_setRestart split: prod.splits)
  next
    case CancelRecv
    obtain m where "loop (setRestart n p) w ks es =
        (case loop p w ks (other_events es) of (s, p2, w2, t2) \<Rightarrow> (s, setRestart m p2, w2, t2))"
      using Cons.IH by blast
    then show ?thesis
      using CancelRecv
      by (auto simp: other_events_def cancel_setRestart split: prod.splits result.splits)
  next
    case (TaskRuns os)
    show ?thesis
    proof (cases ks)
      case Nil
      obtain m where "loop (setRestart n p) w [] es =
          (case loop p w [] (other_events es) of (s, p2, w2, t2) \<Rightarrow> (s, setRestart m p2, w2, t2))"
        using Cons.IH by blast
      then show ?thesis
        using TaskRuns Nil by (auto simp: other_events_def)
    next
      case (Cons k ks')
      obtain r p' t where rt: "run_task k os p = (r, p', t)" by (cases "run_task k os p") auto
      obtain m where "loop (setRestart n p') w ks' es =
          (case loop p' w ks' (other_events es) of (s, p2, w2, t2) \<Rightarrow> (s, setRestart m p2, w2, t2))"
        using Cons.IH by blast
      then show ?thesis
        using TaskRuns Cons rt
        by (cases r)
           (auto simp: other_events_def run_task_setRestart simp del: run_task.simps
              split: prod.splits)
    qed
  next
    case (SetRestart k)
    obtain m where "loop (setRestart k p) w ks es =
        (case loop p w ks (other_events es) of (s, p2, w2, t2) \<Rightarrow> (s, setRestart m p2, w2, t2))"
      using Cons.IH by blast
    then show ?thesis
      using SetRestart by (auto simp: other_events_def setRestart_twice)
  qed
qed

lemma loop_other_events:
  "\<exists>m. loop p w ks es =
        (case loop p w ks (other_events es) of (s, p', w', t) \<Rightarrow> (s, setRestart m p', w', t))"
proof -
  obtain n where "setRestart n p = p" using setRestart_self by blast
  then show ?thesis using loop_setRestart [of n p w ks es] by simp
qed

lemma watch_other_events:
  "\<exists>m. watch p es =
        (case watch p (other_events es) of (s, p', w', t) \<Rightarrow> (s, setRestart m p', w', t))"
proof -
  let ?w = "\<lparr>last = [], numRestarts = (case options p of None \<Rightarrow> 0 | Some opts \<Rightarrow> restart opts)\<rparr>"
  obtain m where "loop p ?w [] es =
        (case loop p ?w [] (other_events es) of (s, p', w', t) \<Rightarrow> (s, setRestart m p', w', t))"
    using loop_other_events by blast
  then have "watch p es =
        (case watch p (other_events es) of (s, p', w', t) \<Rightarrow> (s, setRestart m p', w', t))"
    by (simp add: watch_def split: prod.splits)
  then show ?thesis by blast
qed

lemma restartTask_options: "options (fst (snd (restartTask os p))) = options p"
  by (auto simp: restartTask_def startProcess_def Let_def
      split: prod.splits result.splits option.splits sum.splits)

lemma cancel_budget:
  "map_option restart (options (fst (snd (cancel p)))) = map_option restart (options p)"
  by (cases "options p")
     (auto simp: cancel_def close_def GetNotification_def split: option.splits chan.splits)

lemma run_task_options: "options (fst (snd (run_task k os p))) = options p"
  by (cases k) (simp add: restartTask_options)

lemma loop_keeps_budget:
  "map_option restart (options (fst (snd (loop p w ks (other_events es)))))
     = map_option restart (options p)"
proof (induction es arbitrary: p w ks)
  case Nil
  then show ?case by (simp add: other_events_def)
next
  case (Cons e es)
  show ?case
  proof (cases e)
    case (TickerC os)
    obtain r p' w' t where tk: "tick os p w = (r, p', w', t)" by (cases "tick os p w") auto
    then have "p' = p" using tick_proc [of os p w] by simp
    then show ?thesis
      using TickerC tk Cons.IH [of p w' "ks @ spawned t"]
      by (cases r) (auto simp: other_events_def split: prod.splits)
  next
    case CancelRecv
    then show ?thesis
      using Cons.IH [of p w ks] cancel_budget [of p]
      by (auto simp: other_events_def split: prod.splits result.splits)
  next
    case (TaskRuns os)
    show ?thesis
    proof (cases ks)
      case Nil
      then show ?thesis using TaskRuns Cons.IH [of p w ks] by (simp add: other_events_def)
    next
      case (Cons k ks')
      obtain r p' t where rt: "run_task k os p = (r, p', t)" by (cases "run_task k os p") auto
      then have "options p' = options p" using run_task_options [of k os p] by simp
      then show ?thesis
        using TaskRuns Cons rt Cons.IH [of p' w ks']
        by (cases r) (auto simp: other_events_def simp del: run_task.simps split: prod.splits)
    qed
  next
    case (SetRestart n)
    then show ?thesis using Cons.IH [of p w ks] by (simp add: other_events_def)
  qed
qed

lemma watch_keeps_budget:
  "map_option restart (options (fst (snd (watch p (other_events es)))))
     = map_option restart (options p)"
proof -
  let ?w = "\<lparr>last = [], numRestarts = (case options p of None \<Rightarrow> 0 | Some opts \<Rightarrow> restart opts)\<rparr>"
  obtain s p' w' t ks where l: "loop p ?w [] (other_events es) = (s, p', w', t, ks)"
    by (cases "loop p ?w [] (other_events es)") auto
  show ?thesis
    using loop_keeps_budget [of p ?w "[]" es] l by (simp add: watch_def)
qed

text \<open>
  C10. \<^verbatim>\<open>watch\<close> copies the configured budget into its counter when it starts and works on
  the copy from then on. Two runs on the same handle whose events differ only in
  overwritings of the configured budget end in the same loop status, with the same
  counter and remembered state, and with the same effects in the same order (so the same
  relaunches spawned at the same ticks); their handles differ in the configured budget at
  most. The counter right after the start is the configured budget (0 without options),
  and a run without overwritings leaves the configured budget as it found it.
\<close>

theorem budget_read_once:
  assumes "other_events es1 = other_events es2"
  shows "fst (watch p es1) = fst (watch p es2)
       \<and> fst (snd (snd (watch p es1))) = fst (snd (snd (watch p es2)))
       \<and> snd (snd (snd (watch p es1))) = snd (snd (snd (watch p es2)))
       \<and> setRestart 0 (fst (snd (watch p es1))) = setRestart 0 (fst (snd (watch p es2)))
       \<and> numRestarts (fst (snd (snd (watch p []))))
           = (case options p of None \<Rightarrow> 0 | Some opts \<Rightarrow> restart opts)
       \<and> map_option restart (options (fst (snd (watch p (other_events es1)))))
           = map_option restart (options p)"
proof -
  obtain s p' w' t where b: "watch p (other_events es1) = (s, p', w', t)"
    by (cases "watch p (other_events es1)") auto
  obtain m1 where 1: "watch p es1 = (s, setRestart m1 p', w', t)"
    using watch_other_events [of p es1] b by auto
  obtain m2 where 2: "watch p es2 = (s, setRestart m2 p', w', t)"
    using watch_other_events [of p es2] b assms by auto
  have 3: "numRestarts (fst (snd (snd (watch p []))))
           = (case options p of None \<Rightarrow> 0 | Some opts \<Rightarrow> restart opts)"
    by (simp add: watch_def)
  show ?thesis
    using 1 2 3 watch_keeps_budget [of p es1] by (simp add: setRestart_twice)
qed


text \<open>Setting the budget to 0 before the first tick, or to 7 after it, changes nothing:
  the death of the child starts the restart task allowed by the budget of 2 read at the
  start (the effects, and the task left waiting, are the same in both runs).\<close>

theorem budget_read_once_witness:
  "other_events [SetRestart 0, TickerC os_gone] = other_events [TickerC os_gone, SetRestart 7]
   \<and> snd (snd (snd (watch handle0 [SetRestart 0, TickerC os_gone])))
       = ([Logf DebugLevel ''Process %s watcher started'' [Str ''p1''], NewTicker,
           Signalled 42 SIGNULL, Send Terminated, Go RestartTask], [RestartTask])
   \<and> snd (snd (snd (watch handle0 [TickerC os_gone, SetRestart 7])))
       = ([Logf DebugLevel ''Process %s watcher started'' [Str ''p1''], NewTicker,
           Signalled 42 SIGNULL, Send Terminated, Go RestartTask], [RestartTask])
   \<and> numRestarts (fst (snd (snd (watch handle0 [SetRestart 0, TickerC os_gone])))) = 1"
proof -
  have a: "other_events [SetRestart 0, TickerC os_gone] = other_events [TickerC os_gone, SetRestart 7]"
    by (simp add: other_events_def)
  have b: "watch handle0 [SetRestart 0, TickerC os_gone] =
     (Waiting, setRestart 0 handle0, \<lparr>last = Terminated, numRestarts = 1\<rparr>,
      [Logf DebugLevel ''Process %s watcher started'' [Str ''p1''], NewTicker,
          Signalled 42 SIGNULL, Send Terminated, Go RestartTask], [RestartTask])"
    by (simp add: watch_def tick_unfold setRestart_def handle0_def os_gone_def os_ok_def)
  have c: "fst (snd (snd (watch handle0 [TickerC os_gone, SetRestart 7])))
             = fst (snd (snd (watch handle0 [SetRestart 0, TickerC os_gone])))"
    and d: "snd (snd (snd (watch handle0 [TickerC os_gone, SetRestart 7])))
             = snd (snd (snd (watch handle0 [SetRestart 0, TickerC os_gone])))"
    using budget_read_once [OF a, of handle0] by simp_all
  show ?thesis
    unfolding c d using a b by simp
qed


end
